theory Spec2Isabelle
  imports Complex_Main "HOL-Library.Sublist"
begin

unbundle bit_operations_syntax

section \<open>JavaScript values\<close>

text \<open>
  The values the functions below receive and return. A JavaScript string is a list of
  code units; \<open>char\<close> covers the code units 0 to 255, which is where every character
  the code tests for lives (digits, \<open>-\<close>, \<open>;\<close>, \<open>=\<close>, white space). An array carries its
  elements and its named properties, an object its properties in insertion order.
\<close>

datatype jsval =
    JUndefined
  | JNull
  | JBool bool
  | JNum real
  | JNaN
  | JStr string
  | JArr "jsval list" "(string \<times> jsval) list"
  | JObj "(string \<times> jsval) list"

datatype js_error = TypeError | SyntaxError

text \<open>\<open>!v\<close> is \<open>\<not> truthy v\<close>.\<close>

fun truthy :: "jsval \<Rightarrow> bool" where
  "truthy JUndefined = False"
| "truthy JNull = False"
| "truthy (JBool b) = b"
| "truthy (JNum x) = (x \<noteq> 0)"
| "truthy JNaN = False"
| "truthy (JStr s) = (s \<noteq> [])"
| "truthy (JArr xs ps) = True"
| "truthy (JObj ps) = True"

fun typeof :: "jsval \<Rightarrow> string" where
  "typeof JUndefined = ''undefined''"
| "typeof JNull = ''object''"
| "typeof (JBool b) = ''boolean''"
| "typeof (JNum x) = ''number''"
| "typeof JNaN = ''number''"
| "typeof (JStr s) = ''string''"
| "typeof (JArr xs ps) = ''object''"
| "typeof (JObj ps) = ''object''"

text \<open>\<open>v[field]\<close> for a field name that no prototype defines: reading a property of
  \<open>undefined\<close> or \<open>null\<close> throws, a missing property is \<open>undefined\<close>.\<close>

fun get_property :: "jsval \<Rightarrow> string \<Rightarrow> js_error + jsval" where
  "get_property JUndefined k = Inl TypeError"
| "get_property JNull k = Inl TypeError"
| "get_property (JArr xs ps) k = Inr (case map_of ps k of None \<Rightarrow> JUndefined | Some v \<Rightarrow> v)"
| "get_property (JObj ps) k = Inr (case map_of ps k of None \<Rightarrow> JUndefined | Some v \<Rightarrow> v)"
| "get_property v k = Inr JUndefined"

section \<open>Strings and numbers\<close>

definition is_digit :: "char \<Rightarrow> bool" where
  "is_digit c = (48 \<le> (of_char c :: nat) \<and> (of_char c :: nat) \<le> 57)"

definition digit_val :: "char \<Rightarrow> nat" where
  "digit_val c = of_char c - 48"

definition digit_char :: "nat \<Rightarrow> char" where
  "digit_char d = char_of (48 + d)"

text \<open>The white space of \<open>Number\<close>, \<open>parseInt\<close> and \<open>trim\<close>: TAB, LF, VT, FF, CR, SP, NBSP.\<close>

definition is_js_space :: "char \<Rightarrow> bool" where
  "is_js_space c = (of_char c \<in> {9, 10, 11, 12, 13, 32, 160 :: nat})"

text \<open>\<open>String(n)\<close> for a natural number below 10^21: its decimal digits.\<close>

fun String_nat :: "nat \<Rightarrow> string" where
  "String_nat n = (if n < 10 then [digit_char n] else String_nat (n div 10) @ [digit_char (n mod 10)])"

declare String_nat.simps [simp del]

definition padStart :: "nat \<Rightarrow> char \<Rightarrow> string \<Rightarrow> string" where
  "padStart n c s = replicate (n - length s) c @ s"

text \<open>\<open>Number(c)\<close> for a one-character string: a digit is its value, white space is 0,
  anything else is NaN (\<open>None\<close>).\<close>

definition Number_char :: "char \<Rightarrow> nat option" where
  "Number_char c = (if is_digit c then Some (digit_val c) else if is_js_space c then Some 0 else None)"

section \<open>IdUtils\<close>

definition WEIGHTS :: "nat list" where
  "WEIGHTS = [3, 7, 11, 13]"

definition ADMIN_PREFIX :: string where
  "ADMIN_PREFIX = ''00''"



text \<open>The first loop of \<open>calculateChecksum\<close>, \<open>for (i = length - 1; i >= 0; i--)\<close>: the
  second argument is \<open>i + 1\<close>.\<close>

fun luhn_loop :: "nat list \<Rightarrow> nat \<Rightarrow> nat \<Rightarrow> nat" where
  "luhn_loop allDigits 0 luhnSum = luhnSum"
| "luhn_loop allDigits (Suc i) luhnSum =
     (let digit = allDigits ! i;
          digit = (if (length allDigits - i) mod 2 = 0
                   then (if digit * 2 > 9 then digit * 2 - 9 else digit * 2)
                   else digit)
      in luhn_loop allDigits i (luhnSum + digit))"

text \<open>The second loop, \<open>for (i = 0; i < length; i++)\<close>, over the digits from index \<open>i\<close> on.\<close>

fun weight_loop :: "nat list \<Rightarrow> nat \<Rightarrow> nat \<Rightarrow> nat" where
  "weight_loop [] i weightSum = weightSum"
| "weight_loop (d # ds) i weightSum =
     weight_loop ds (Suc i) (weightSum + d * WEIGHTS ! (i mod length WEIGHTS))"

text \<open>The third loop, \<open>for (const digit of allDigits) xorResult ^= digit\<close>.\<close>

fun xor_loop :: "nat list \<Rightarrow> nat \<Rightarrow> nat" where
  "xor_loop [] xorResult = xorResult"
| "xor_loop (d # ds) xorResult = xor_loop ds (xorResult XOR d)"

text \<open>A character that \<open>Number\<close> maps to NaN makes both sums NaN, and the result is
  \<open>String(NaN).padStart(2, '0')\<close>.\<close>

definition calculateChecksum :: "string \<Rightarrow> string \<Rightarrow> string" where
  "calculateChecksum pfx randomDigits =
     (case those (map Number_char (pfx @ randomDigits)) of
        None \<Rightarrow> padStart 2 (CHR ''0'') ''NaN''
      | Some allDigits \<Rightarrow>
          (let luhnSum = luhn_loop allDigits (length allDigits) 0;
               weightSum = weight_loop allDigits 0 0;
               xorResult = xor_loop allDigits 0;
               checksum = (luhnSum + weightSum + xorResult) mod 100
           in padStart 2 (CHR ''0'') (String_nat checksum)))"

text \<open>\<open>userId.match(/^(\d{2})(\d{2})-(\d{4})$/)\<close>: the three groups, or \<open>None\<close> for null.\<close>

definition match_idPattern :: "string \<Rightarrow> (string \<times> string \<times> string) option" where
  "match_idPattern s =
     (if length s = 9 \<and> list_all is_digit (take 4 s) \<and> s ! 4 = CHR ''-'' \<and> list_all is_digit (drop 5 s)
      then Some (take 2 s, take 2 (drop 2 s), drop 5 s)
      else None)"

text \<open>Method calls on the argument: they throw on a value that has no such method.\<close>

fun js_match :: "jsval \<Rightarrow> js_error + (string \<times> string \<times> string) option" where
  "js_match (JStr s) = Inr (match_idPattern s)"
| "js_match v = Inl TypeError"

fun js_startsWith :: "jsval \<Rightarrow> string \<Rightarrow> js_error + bool" where
  "js_startsWith (JStr s) p = Inr (prefix p s)"
| "js_startsWith v p = Inl TypeError"

fun js_substring :: "jsval \<Rightarrow> nat \<Rightarrow> nat \<Rightarrow> js_error + jsval" where
  "js_substring (JStr s) a b = Inr (JStr (drop (min a b) (take (max a b) s)))"
| "js_substring v a b = Inl TypeError"

definition validateUserId :: "jsval \<Rightarrow> js_error + bool" where
  "validateUserId userId =
     (if \<not> truthy userId \<or> typeof userId \<noteq> ''string'' then Inr False
      else case js_match userId of
             Inl e \<Rightarrow> Inl e
           | Inr None \<Rightarrow> Inr False
           | Inr (Some (pfx, providedChecksum, randomDigits)) \<Rightarrow>
               Inr (providedChecksum = calculateChecksum pfx randomDigits))"

definition isAdminId :: "jsval \<Rightarrow> js_error + bool" where
  "isAdminId userId =
     (case validateUserId userId of
        Inl e \<Rightarrow> Inl e
      | Inr valid \<Rightarrow> if \<not> valid then Inr False else js_startsWith userId ADMIN_PREFIX)"

definition getPrefix :: "jsval \<Rightarrow> js_error + jsval" where
  "getPrefix userId =
     (case validateUserId userId of
        Inl e \<Rightarrow> Inl e
      | Inr valid \<Rightarrow> if \<not> valid then Inr JNull else js_substring userId 0 2)"

definition getRandomDigits :: "jsval \<Rightarrow> js_error + jsval" where
  "getRandomDigits userId =
     (case validateUserId userId of
        Inl e \<Rightarrow> Inl e
      | Inr valid \<Rightarrow> if \<not> valid then Inr JNull else js_substring userId 5 9)"


section \<open>UserUtils\<close>

text \<open>The loop over \<open>requiredFields\<close> in \<open>validateUserData\<close>: \<open>Inr True\<close> when every field
  is present, \<open>Inr False\<close> at the first one that is not.\<close>

fun requiredFields_loop :: "jsval \<Rightarrow> string list \<Rightarrow> js_error + bool" where
  "requiredFields_loop userData [] = Inr True"
| "requiredFields_loop userData (field # fields) =
     (case get_property userData field of
        Inl e \<Rightarrow> Inl e
      | Inr v \<Rightarrow> if \<not> truthy v then Inr False else requiredFields_loop userData fields)"

definition validateUserData :: "jsval \<Rightarrow> js_error + bool" where
  "validateUserData userData =
     (if \<not> truthy userData \<or> typeof userData \<noteq> ''object'' then Inr False
      else case requiredFields_loop userData [''id'', ''username'', ''email''] of
             Inl e \<Rightarrow> Inl e
           | Inr present \<Rightarrow>
               if \<not> present then Inr False
               else case get_property userData ''id'' of
                      Inl e \<Rightarrow> Inl e
                    | Inr uid \<Rightarrow>
                        (case validateUserId uid of
                           Inl e \<Rightarrow> Inl e
                         | Inr valid \<Rightarrow>
                             if \<not> valid then Inr False
                             else case isAdminId uid of
                                    Inl e \<Rightarrow> Inl e
                                  | Inr isAdminFromId \<Rightarrow>
                                      (case get_property userData ''isAdmin'' of
                                         Inl e \<Rightarrow> Inl e
                                       | Inr isAdmin \<Rightarrow>
                                           if isAdmin \<noteq> JBool isAdminFromId then Inr False
                                           else Inr True)))"

section \<open>The checksum as the specification words it\<close>

text \<open>Doubling a digit and subtracting 9 when the doubled value exceeds 9.\<close>

definition luhn_double :: "nat \<Rightarrow> nat" where
  "luhn_double d = (if 2 * d > 9 then 2 * d - 9 else 2 * d)"

text \<open>The six digits \<open>d[0..5]\<close> of partition and random part; position \<open>6 - i\<close> is the
  1-indexed position of \<open>d[i]\<close> from the right, and every second one is doubled; the
  weights run left to right; the result is written as two decimal digits.\<close>

definition checksum_reference :: "string \<Rightarrow> string \<Rightarrow> string" where
  "checksum_reference part rnd =
     (let d = map digit_val (part @ rnd);
          luhnSum = (\<Sum>i<6. if even (6 - i) then luhn_double (d ! i) else d ! i);
          weightSum = (\<Sum>i<6. d ! i * [3, 7, 11, 13] ! (i mod 4));
          xorResult = d ! 0 XOR d ! 1 XOR d ! 2 XOR d ! 3 XOR d ! 4 XOR d ! 5;
          c = (luhnSum + weightSum + xorResult) mod 100
      in [digit_char (c div 10), digit_char (c mod 10)])"

text \<open>What \<open>validateUserData\<close> looks at: the argument is an object, and the value of a
  field (\<open>undefined\<close> when the field is missing).\<close>

definition is_object :: "jsval \<Rightarrow> bool" where
  "is_object v = (truthy v \<and> typeof v = ''object'')"

definition field_of :: "jsval \<Rightarrow> string \<Rightarrow> jsval" where
  "field_of v k = (case get_property v k of Inl e \<Rightarrow> JUndefined | Inr x \<Rightarrow> x)"

section \<open>The cookie jar\<close>

text \<open>
  \<open>document.cookie\<close> belongs to the browser. The jar is the list of the document's
  cookies, name and value, in the order in which reading \<open>document.cookie\<close> lists them;
  reading gives \<open>name=value\<close> pairs joined by a semicolon and a space. Assigning a string
  \<open>name=value;expires=...;path=/\<close> whose expiry lies in the future replaces the value of
  the cookie of that name, in place, or adds a new cookie at the end; with an expiry that
  has passed it removes the cookie. Expiry of stored cookies, size limits and the number
  of cookies a browser keeps are not part of the model.
\<close>

type_synonym jar = "(string \<times> string) list"

fun document_cookie :: "jar \<Rightarrow> string" where
  "document_cookie [] = []"
| "document_cookie [(n, v)] = n @ ''='' @ v"
| "document_cookie ((n, v) # c # cs) = n @ ''='' @ v @ ''; '' @ document_cookie (c # cs)"

fun cookie_store :: "string \<Rightarrow> string \<Rightarrow> jar \<Rightarrow> jar" where
  "cookie_store name val [] = [(name, val)]"
| "cookie_store name val ((n, v) # cs) =
     (if n = name then (name, val) # cs else (n, v) # cookie_store name val cs)"

definition cookie_remove :: "string \<Rightarrow> jar \<Rightarrow> jar" where
  "cookie_remove name jar = filter (\<lambda>(n, v). n \<noteq> name) jar"

text \<open>\<open>s.split(sep)\<close> for a one-character separator (the result always has a first
  piece, so the second case of the \<open>case\<close> does not occur), and \<open>s.trim()\<close>.\<close>

fun split_char :: "char \<Rightarrow> string \<Rightarrow> string list" where
  "split_char sep [] = [[]]"
| "split_char sep (c # cs) =
     (if c = sep then [] # split_char sep cs
      else case split_char sep cs of
             p # ps \<Rightarrow> (c # p) # ps
           | [] \<Rightarrow> [[c]])"



text \<open>
  \<open>parseInt(s)\<close> without a radix: leading white space, a sign, a \<open>0x\<close> prefix for base 16,
  then the longest run of digits; \<open>None\<close> is NaN. The result is exact here, as it is in
  JavaScript below 2^53.
\<close>

definition radix_digit :: "nat \<Rightarrow> char \<Rightarrow> nat option" where
  "radix_digit radix c =
     (let k = (of_char c :: nat);
          d = (if 48 \<le> k \<and> k \<le> 57 then Some (k - 48)
               else if 97 \<le> k \<and> k \<le> 122 then Some (k - 87)
               else if 65 \<le> k \<and> k \<le> 90 then Some (k - 55)
               else None)
      in case d of None \<Rightarrow> None | Some x \<Rightarrow> if x < radix then Some x else None)"

definition parseInt :: "string \<Rightarrow> int option" where
  "parseInt s =
     (let s1 = dropWhile is_js_space s;
          negative = (take 1 s1 = ''-'');
          s2 = (if take 1 s1 = ''-'' \<or> take 1 s1 = ''+'' then drop 1 s1 else s1);
          hex = (take 2 s2 = ''0x'' \<or> take 2 s2 = ''0X'');
          radix = (if hex then 16 else 10);
          s3 = (if hex then drop 2 s2 else s2);
          ds = takeWhile (\<lambda>c. radix_digit radix c \<noteq> None) s3;
          n = foldl (\<lambda>a c. a * radix + (case radix_digit radix c of None \<Rightarrow> 0 | Some d \<Rightarrow> d)) 0 ds
      in if ds = [] then None else Some (if negative then - int n else int n))"

text \<open>\<open>JSON.stringify\<close> and \<open>JSON.parse\<close> are the runtime's; the functions that use them
  take them as a parameter. \<open>JSON_parse\<close> returns \<open>Inl SyntaxError\<close> where it throws.\<close>

record JSON =
  JSON_stringify :: "jsval \<Rightarrow> string"
  JSON_parse :: "string \<Rightarrow> js_error + jsval"

text \<open>
  \<open>obj.key = v\<close> in a module, which is strict code: it adds or replaces the property of
  an object or an array and throws on a primitive value.
\<close>

fun put_property :: "string \<Rightarrow> jsval \<Rightarrow> (string \<times> jsval) list \<Rightarrow> (string \<times> jsval) list" where
  "put_property k x [] = [(k, x)]"
| "put_property k x ((k', y) # ps) =
     (if k' = k then (k, x) # ps else (k', y) # put_property k x ps)"

fun set_property :: "jsval \<Rightarrow> string \<Rightarrow> jsval \<Rightarrow> js_error + jsval" where
  "set_property (JObj ps) k x = Inr (JObj (put_property k x ps))"
| "set_property (JArr xs ps) k x = Inr (JArr xs (put_property k x ps))"
| "set_property v k x = Inl TypeError"

text \<open>A string or null in a condition: null and the empty string are falsy.\<close>

fun str_truthy :: "string option \<Rightarrow> bool" where
  "str_truthy None = False"
| "str_truthy (Some s) = (s \<noteq> [])"

section \<open>CookieUtils\<close>

text \<open>\<open>setCookie\<close>: the expiry is \<open>days\<close> days from now, in the future when \<open>days\<close> is
  positive.\<close>

definition setCookie :: "string \<Rightarrow> string \<Rightarrow> int \<Rightarrow> jar \<Rightarrow> jar" where
  "setCookie name val days jar =
     (if 0 < days then cookie_store name val jar else cookie_remove name jar)"

text \<open>The loop of \<open>getCookie\<close> over \<open>document.cookie.split(';')\<close>.\<close>

fun getCookie_loop :: "string \<Rightarrow> string list \<Rightarrow> string option" where
  "getCookie_loop nameEQ [] = None"
| "getCookie_loop nameEQ (c # ca) =
     (let c = dropWhile (\<lambda>x. x = CHR '' '') c
      in if prefix nameEQ c then Some (drop (length nameEQ) c)
         else getCookie_loop nameEQ ca)"

definition getCookie :: "string \<Rightarrow> jar \<Rightarrow> string option" where
  "getCookie name jar =
     (let nameEQ = name @ ''='';
          ca = split_char (CHR '';'') (document_cookie jar)
      in getCookie_loop nameEQ ca)"

definition deleteCookie :: "string \<Rightarrow> jar \<Rightarrow> jar" where
  "deleteCookie name jar = cookie_remove name jar"

text \<open>The names of the cookies of a user, as the template strings build them.\<close>

definition token_key :: "string \<Rightarrow> string" where
  "token_key username = ''userToken_'' @ username"

definition data_key :: "string \<Rightarrow> string" where
  "data_key username = ''userData_'' @ username"

definition avatar_key :: "string \<Rightarrow> string" where
  "avatar_key username = ''userAvatar_'' @ username"

definition count_key :: "string \<Rightarrow> string" where
  "count_key username = ''userAvatar_'' @ username @ ''_chunks''"

definition chunk_key :: "string \<Rightarrow> nat \<Rightarrow> string" where
  "chunk_key username i = ''userAvatar_'' @ username @ ''_chunk_'' @ String_nat i"

definition getUserToken :: "string \<Rightarrow> jar \<Rightarrow> string option" where
  "getUserToken username jar = getCookie (token_key username) jar"

definition getActiveUser :: "jar \<Rightarrow> string option" where
  "getActiveUser jar = getCookie ''activeUser'' jar"

definition setActiveUser :: "string \<Rightarrow> jar \<Rightarrow> jar" where
  "setActiveUser username jar = setCookie ''activeUser'' username 7 jar"

subsection \<open>Avatars\<close>

definition chunkSize :: nat where
  "chunkSize = 3000"

text \<open>The first loop of \<open>setAvatarChunks\<close>,
  \<open>for (i = 0; i < avatarData.length; i += chunkSize) chunks.push(avatarData.slice(i, i + chunkSize))\<close>.\<close>

function slice_loop :: "string \<Rightarrow> nat \<Rightarrow> string list" where
  "slice_loop avatarData i =
     (if i < length avatarData
      then take chunkSize (drop i avatarData) # slice_loop avatarData (i + chunkSize)
      else [])"
  by pat_completeness auto
termination
  by (relation "measure (\<lambda>(avatarData, i). length avatarData - i)") (auto simp add: chunkSize_def)

declare slice_loop.simps [simp del]

text \<open>The second loop, \<open>chunks.forEach((chunk, index) => setCookie(...))\<close>.\<close>

fun store_chunks :: "string \<Rightarrow> int \<Rightarrow> string list \<Rightarrow> nat \<Rightarrow> jar \<Rightarrow> jar" where
  "store_chunks username days [] index jar = jar"
| "store_chunks username days (chunk # chunks) index jar =
     store_chunks username days chunks (Suc index)
       (setCookie (chunk_key username index) chunk days jar)"

definition setAvatarChunks :: "string \<Rightarrow> string \<Rightarrow> int \<Rightarrow> jar \<Rightarrow> jar" where
  "setAvatarChunks username avatarData days jar =
     (let chunks = slice_loop avatarData 0;
          jar = setCookie (avatar_key username) ''chunked'' days jar;
          jar = setCookie (count_key username) (String_nat (length chunks)) days jar
      in store_chunks username days chunks 0 jar)"

text \<open>\<open>setUserAvatar\<close> for a string: the size warning only logs, and no call in the
  \<open>try\<close> block throws, so the \<open>catch\<close> branch is not taken.\<close>

definition setUserAvatar :: "string \<Rightarrow> string \<Rightarrow> int \<Rightarrow> jar \<Rightarrow> jar" where
  "setUserAvatar username avatarData days jar =
     (if length avatarData > 3500 then setAvatarChunks username avatarData days jar
      else setCookie (avatar_key username) avatarData days jar)"

text \<open>The count that \<open>getAvatarChunks\<close> reads: \<open>parseInt(getCookie(...) || '0')\<close>.\<close>

definition stored_chunkCount :: "string \<Rightarrow> jar \<Rightarrow> int option" where
  "stored_chunkCount username jar =
     (let c = getCookie (count_key username) jar
      in parseInt (if str_truthy c then the c else ''0''))"

text \<open>The loop of \<open>getAvatarChunks\<close>: the first argument counts the iterations left,
  the second is \<open>i\<close>.\<close>

fun getAvatarChunks_loop :: "nat \<Rightarrow> nat \<Rightarrow> string \<Rightarrow> jar \<Rightarrow> string \<Rightarrow> string option" where
  "getAvatarChunks_loop 0 i username jar avatarData = Some avatarData"
| "getAvatarChunks_loop (Suc k) i username jar avatarData =
     (let chunk = getCookie (chunk_key username i) jar
      in if \<not> str_truthy chunk then None
         else getAvatarChunks_loop k (Suc i) username jar (avatarData @ the chunk))"

text \<open>With a count that is NaN or negative the loop body never runs and the empty
  string is returned.\<close>

definition getAvatarChunks :: "string \<Rightarrow> jar \<Rightarrow> string option" where
  "getAvatarChunks username jar =
     (case stored_chunkCount username jar of
        None \<Rightarrow> Some []
      | Some chunkCount \<Rightarrow>
          if chunkCount = 0 then None
          else getAvatarChunks_loop (nat chunkCount) 0 username jar [])"

definition getUserAvatar :: "string \<Rightarrow> jar \<Rightarrow> string option" where
  "getUserAvatar username jar =
     (let avatar = getCookie (avatar_key username) jar
      in if str_truthy avatar \<and> avatar \<noteq> Some ''chunked'' then avatar
         else if avatar = Some ''chunked'' then getAvatarChunks username jar
         else None)"

definition deleteUserAvatar :: "string \<Rightarrow> jar \<Rightarrow> jar" where
  "deleteUserAvatar username jar =
     fold (\<lambda>i. deleteCookie (chunk_key username i)) [0..<10]
       (deleteCookie (avatar_key username) jar)"

subsection \<open>Accounts\<close>

text \<open>\<open>getUserData\<close>: a parse error and a failed assignment of the avatar are caught and
  give null.\<close>

definition getUserData :: "JSON \<Rightarrow> string \<Rightarrow> jar \<Rightarrow> jsval" where
  "getUserData J username jar =
     (let userData = getCookie (data_key username) jar
      in case (if str_truthy userData then JSON_parse J (the userData) else Inr JNull) of
           Inl e \<Rightarrow> JNull
         | Inr parsedData \<Rightarrow>
             if truthy parsedData then
               (let avatarData = getUserAvatar username jar
                in if str_truthy avatarData \<and> avatarData \<noteq> Some ''default''
                   then (case set_property parsedData ''userAvatar'' (JStr (the avatarData)) of
                           Inl e \<Rightarrow> JNull
                         | Inr parsedData \<Rightarrow> parsedData)
                   else parsedData)
             else parsedData)"

definition deleteUserToken :: "string \<Rightarrow> jar \<Rightarrow> jar" where
  "deleteUserToken username jar =
     deleteUserAvatar username
       (deleteCookie (data_key username)
         (deleteCookie (token_key username) jar))"



subsection \<open>The roster of recent users\<close>

definition getLastUsers :: "JSON \<Rightarrow> jar \<Rightarrow> jsval" where
  "getLastUsers J jar =
     (let lastUsers = getCookie ''lastUsers'' jar
      in case (if str_truthy lastUsers then JSON_parse J (the lastUsers) else Inr (JArr [] [])) of
           Inl e \<Rightarrow> JArr [] []
         | Inr v \<Rightarrow> v)"


subsection \<open>Batch validation\<close>





section \<open>Jars the browser can hold\<close>

text \<open>
  A cookie name as the browser stores it has at least one character, contains neither
  \<open>;\<close> nor \<open>=\<close>, and neither begins nor ends with white space; a value contains no \<open>;\<close>
  and neither begins nor ends with white space. A jar is well formed when all its names
  and values are of this kind and no name occurs twice. On such names and values the
  assignment to \<open>document.cookie\<close> stores what \<open>setCookie\<close> was given.
\<close>

definition cookie_name_ok :: "string \<Rightarrow> bool" where
  "cookie_name_ok n =
     (n \<noteq> [] \<and> CHR '';'' \<notin> set n \<and> CHR ''='' \<notin> set n \<and> \<not> is_js_space (hd n) \<and> \<not> is_js_space (last n))"

definition cookie_value_ok :: "string \<Rightarrow> bool" where
  "cookie_value_ok v =
     (CHR '';'' \<notin> set v \<and> (v = [] \<or> (\<not> is_js_space (hd v) \<and> \<not> is_js_space (last v))))"

definition wf_jar :: "jar \<Rightarrow> bool" where
  "wf_jar jar = (list_all (\<lambda>(n, v). cookie_name_ok n \<and> cookie_value_ok v) jar \<and> distinct (map fst jar))"

text \<open>A username whose cookie names are of this kind, and avatar data all of whose
  chunks are values of this kind.\<close>

definition username_ok :: "string \<Rightarrow> bool" where
  "username_ok u = (CHR '';'' \<notin> set u \<and> CHR ''='' \<notin> set u \<and> (u = [] \<or> \<not> is_js_space (last u)))"

definition avatar_ok :: "string \<Rightarrow> bool" where
  "avatar_ok v = (CHR '';'' \<notin> set v \<and> list_all (\<lambda>c. \<not> is_js_space c) v)"

text \<open>The pieces of \<open>document.cookie.split(';')\<close> for a well-formed jar.\<close>

fun cookie_pieces :: "jar \<Rightarrow> string list" where
  "cookie_pieces [] = [[]]"
| "cookie_pieces ((n, v) # cs) = (n @ ''='' @ v) # map (\<lambda>(n, v). '' '' @ n @ ''='' @ v) cs"

text \<open>The names of the cookies that \<open>deleteUserToken\<close> deletes for a user.\<close>

definition deleted_keys :: "string \<Rightarrow> string list" where
  "deleted_keys u = [token_key u, data_key u, avatar_key u] @ map (chunk_key u) [0..<10]"

section \<open>The roster and the batch as the specification words them\<close>








section \<open>A JSON runtime for the examples\<close>







lemma String_nat_lt10: "n < 10 \<Longrightarrow> String_nat n = [digit_char n]"
  by (simp add: String_nat.simps)

lemma String_nat_ge10: "10 \<le> n \<Longrightarrow> String_nat n = String_nat (n div 10) @ [digit_char (n mod 10)]"
  by (subst String_nat.simps) simp

lemma digit_char_0: "digit_char 0 = CHR ''0''"
  by (simp add: digit_char_def char_of_eq_iff)

lemma String_nat_2: "10 \<le> n \<Longrightarrow> n < 100 \<Longrightarrow> String_nat n = [digit_char (n div 10), digit_char (n mod 10)]"
  using String_nat_ge10[of n] String_nat_lt10[of "n div 10"] by simp



lemma pad2: "n < 100 \<Longrightarrow> padStart 2 (CHR ''0'') (String_nat n) = [digit_char (n div 10), digit_char (n mod 10)]"
proof (cases "n < 10")
  case True
  then show ?thesis by (simp add: String_nat_lt10 padStart_def digit_char_0)
next
  case False
  assume "n < 100"
  with False show ?thesis by (simp add: String_nat_2 padStart_def)
qed


lemma is_digit_digit_char: "d < 10 \<Longrightarrow> is_digit (digit_char d)"
  by (simp add: is_digit_def digit_char_def)

lemma digit_val_digit_char: "d < 10 \<Longrightarrow> digit_val (digit_char d) = d"
  by (simp add: digit_val_def digit_char_def)

lemma Number_char_digit: "is_digit c \<Longrightarrow> Number_char c = Some (digit_val c)"
  by (simp add: Number_char_def)

lemma digit_val_lt10: "is_digit c \<Longrightarrow> digit_val c < 10"
  by (auto simp add: is_digit_def digit_val_def)

lemma list6: "length xs = 6 \<Longrightarrow> \<exists>a b c d e f. xs = [a,b,c,d,e,f]"
  by (auto simp add: length_Suc_conv numeral_eq_Suc)

lemma sum6: "(\<Sum>i<6. f i) = f 0 + f 1 + f 2 + f 3 + f 4 + f (5::nat)"
  by (simp add: numeral_eq_Suc lessThan_Suc ac_simps)

lemma luhn_step: "luhn_loop ds (Suc i) s =
    luhn_loop ds i (s + (if even (length ds - i) then luhn_double (ds ! i) else ds ! i))"
  by (simp add: luhn_double_def Let_def mult.commute even_iff_mod_2_eq_zero)

lemma luhn6: "luhn_loop [a,b,c,d,e,f] (Suc (Suc (Suc (Suc (Suc (Suc 0)))))) 0 =
      f + luhn_double e + d + luhn_double c + b + luhn_double a"
  by (simp add: luhn_step del: luhn_loop.simps(2))

lemma weight6: "weight_loop [a,b,c,d,e,f] 0 0 = a * 3 + b * 7 + c * 11 + d * 13 + e * 3 + f * 7"
  by (simp add: WEIGHTS_def)

lemma xor6: "xor_loop [a,b,c,d,e,f] 0 = a XOR b XOR c XOR d XOR e XOR f"
  by (simp add: ac_simps)

lemma calc6:
  assumes "is_digit a" "is_digit b" "is_digit c" "is_digit d" "is_digit e" "is_digit f"
  shows "calculateChecksum [a, b] [c, d, e, f] = checksum_reference [a, b] [c, d, e, f]"
proof -
  define N where "N = (digit_val f + luhn_double (digit_val e) + digit_val d + luhn_double (digit_val c)
       + digit_val b + luhn_double (digit_val a))
     + (digit_val a * 3 + digit_val b * 7 + digit_val c * 11 + digit_val d * 13 + digit_val e * 3 + digit_val f * 7)
     + (digit_val a XOR digit_val b XOR digit_val c XOR digit_val d XOR digit_val e XOR digit_val f)"
  have "calculateChecksum [a, b] [c, d, e, f] = padStart 2 (CHR ''0'') (String_nat (N mod 100))"
    using assms unfolding N_def
    by (simp add: calculateChecksum_def Number_char_digit Let_def luhn6 weight6 xor6
         del: luhn_loop.simps weight_loop.simps xor_loop.simps)
  also have "\<dots> = [digit_char (N mod 100 div 10), digit_char (N mod 100 mod 10)]"
    by (simp add: pad2)
  also have "\<dots> = checksum_reference [a, b] [c, d, e, f]"
    unfolding N_def checksum_reference_def Let_def sum6
    by (simp add: ac_simps)
  finally show ?thesis .
qed

text \<open>
  Claim C2. For every 2-digit partition string and 4-digit random string,
  \<open>calculateChecksum\<close> returns what the reference definition of the specification
  returns: the Luhn-style sum (every second digit from the right doubled, minus 9 above 9),
  plus the weighted sum with weights 3, 7, 11, 13 from the left, plus the exclusive or of
  the six digits, modulo 100, as two decimal digits.
\<close>

theorem calculateChecksum_refines_reference:
  assumes "length part = 2" "list_all is_digit part" "length rnd = 4" "list_all is_digit rnd"
  shows "calculateChecksum part rnd = checksum_reference part rnd"
proof -
  from assms(1) obtain a b where p: "part = [a, b]" 
    by (auto simp add: length_Suc_conv numeral_eq_Suc)
  from assms(3) obtain c d e f where r: "rnd = [c, d, e, f]" 
    by (auto simp add: length_Suc_conv numeral_eq_Suc)
  from assms(2,4) show ?thesis unfolding p r by (intro calc6) simp_all
qed

theorem calculateChecksum_refines_reference_witness:
  "length ''00'' = 2 \<and> list_all is_digit ''00'' \<and> length ''1234'' = 4 \<and> list_all is_digit ''1234''
   \<and> calculateChecksum ''00'' ''1234'' = ''92'' \<and> checksum_reference ''00'' ''1234'' = ''92''"
proof -
  have d: "list_all is_digit ''00''" "list_all is_digit ''1234''" by (simp_all add: is_digit_def)
  have c: "calculateChecksum ''00'' ''1234'' = ''92''"
    by (simp add: calculateChecksum_def Number_char_def is_digit_def digit_val_def Let_def
        WEIGHTS_def padStart_def String_nat_2 digit_char_def char_of_eq_iff)
  from calculateChecksum_refines_reference[of "''00''" "''1234''"] d c show ?thesis by simp
qed

lemma validateUserId_cases: "validateUserId userId = Inr True \<or> validateUserId userId = Inr False"
  by (cases userId) (auto simp add: validateUserId_def split: option.splits)

text \<open>
  Claim C9. For every value \<open>userId\<close>, string or not, that \<open>validateUserId\<close> does not
  accept: \<open>validateUserId\<close> returns false, \<open>isAdminId\<close> returns false, \<open>getPrefix\<close> and
  \<open>getRandomDigits\<close> return null, and none of the four throws (each result is an
  \<open>Inr\<close>).
\<close>

theorem invalid_id_never_admin:
  assumes "validateUserId userId \<noteq> Inr True"
  shows "validateUserId userId = Inr False \<and> isAdminId userId = Inr False
       \<and> getPrefix userId = Inr JNull \<and> getRandomDigits userId = Inr JNull"
proof -
  from assms validateUserId_cases[of userId] have "validateUserId userId = Inr False" by blast
  then show ?thesis by (simp add: isAdminId_def getPrefix_def getRandomDigits_def)
qed

lemma char_eq_char_of: "(c = char_of (n::nat)) = (take_bit 8 n = of_char c)"
  using char_of_eq_iff[of n c] by auto

lemmas checksum_eval = calculateChecksum_def Number_char_def is_digit_def digit_val_def Let_def
  WEIGHTS_def padStart_def String_nat_lt10 String_nat_2 digit_char_def char_of_eq_iff char_eq_char_of

lemmas validate_eval = validateUserId_def match_idPattern_def checksum_eval

theorem invalid_id_never_admin_witness:
  "validateUserId (JStr ''0158-1234'') \<noteq> Inr True \<and> validateUserId (JNum 7) \<noteq> Inr True
   \<and> isAdminId (JStr ''0158-1234'') = Inr False \<and> getPrefix (JStr ''0158-1234'') = Inr JNull
   \<and> getRandomDigits (JStr ''0158-1234'') = Inr JNull \<and> isAdminId (JNum 7) = Inr False"
proof -
  have a: "validateUserId (JStr ''0158-1234'') \<noteq> Inr True" by (simp add: validate_eval)
  have b: "validateUserId (JNum 7) \<noteq> Inr True" by (simp add: validateUserId_def)
  from invalid_id_never_admin[OF a] invalid_id_never_admin[OF b] a b show ?thesis by simp
qed









lemma isAdminId_cases: "isAdminId userId = Inr True \<or> isAdminId userId = Inr False"
  using validateUserId_cases[of userId]
  by (cases userId) (auto simp add: isAdminId_def validateUserId_def)

lemma requiredFields_loop_3:
  assumes "is_object userData"
  shows "requiredFields_loop userData [a, b, c] =
     Inr (truthy (field_of userData a) \<and> truthy (field_of userData b) \<and> truthy (field_of userData c))"
  using assms by (cases userData) (simp_all add: is_object_def field_of_def)

text \<open>
  Claim C3. \<open>validateUserData\<close> never throws, and it returns true exactly when the
  argument is an object, its \<open>id\<close>, \<open>username\<close> and \<open>email\<close> are present, the \<open>id\<close>
  passes \<open>validateUserId\<close>, and the stored \<open>isAdmin\<close> is the boolean that \<open>isAdminId\<close>
  derives from the \<open>id\<close>. In every other case, in particular for an invalid id or a
  stored role that disagrees with the identifier, it returns false.
\<close>

theorem validateUserData_characterisation:
  "validateUserData userData =
     Inr (is_object userData
          \<and> truthy (field_of userData ''id'')
          \<and> truthy (field_of userData ''username'')
          \<and> truthy (field_of userData ''email'')
          \<and> validateUserId (field_of userData ''id'') = Inr True
          \<and> field_of userData ''isAdmin'' = JBool (isAdminId (field_of userData ''id'') = Inr True))"
proof (cases "is_object userData")
  case False
  then show ?thesis by (auto simp add: validateUserData_def is_object_def)
next
  case True
  then have g: "get_property userData k = Inr (field_of userData k)" for k
    by (cases userData) (simp_all add: is_object_def field_of_def)
  from True have o: "truthy userData" "typeof userData = ''object''" by (simp_all add: is_object_def)
  show ?thesis
    using validateUserId_cases[of "field_of userData ''id''"] isAdminId_cases[of "field_of userData ''id''"]
    unfolding validateUserData_def requiredFields_loop_3[OF True] g
    by (auto simp add: o True)
qed

theorem validateUserData_characterisation_witness:
  "validateUserData (JObj [(''id'', JStr ''0092-1234''), (''username'', JStr ''root''),
      (''email'', JStr ''r@x.org''), (''isAdmin'', JBool True)]) = Inr True
   \<and> validateUserData (JObj [(''id'', JStr ''0092-1234''), (''username'', JStr ''root''),
      (''email'', JStr ''r@x.org''), (''isAdmin'', JBool False)]) = Inr False
   \<and> validateUserData (JObj [(''id'', JStr ''0093-1234''), (''username'', JStr ''root''),
      (''email'', JStr ''r@x.org''), (''isAdmin'', JBool True)]) = Inr False"
proof -
  have v: "validateUserId (JStr ''0092-1234'') = Inr True" by (simp add: validate_eval)
  have a: "isAdminId (JStr ''0092-1234'') = Inr True" by (simp add: isAdminId_def v ADMIN_PREFIX_def)
  have w: "validateUserId (JStr ''0093-1234'') = Inr False" by (simp add: validate_eval)
  show ?thesis
    unfolding validateUserData_characterisation by (simp add: is_object_def field_of_def v a w)
qed

section \<open>Reading and writing a well-formed jar\<close>

lemma split_char_no_sep: "sep \<notin> set a \<Longrightarrow> split_char sep a = [a]"
  by (induction a) auto

lemma split_char_append: "sep \<notin> set a \<Longrightarrow> split_char sep (a @ sep # b) = a # split_char sep b"
  by (induction a) auto

lemma split_document_cookie:
  "list_all (\<lambda>(n, v). CHR '';'' \<notin> set n \<and> CHR '';'' \<notin> set v) jar
   \<Longrightarrow> split_char (CHR '';'') (document_cookie jar) = cookie_pieces jar"
proof (induction jar rule: document_cookie.induct)
  case 1
  then show ?case by simp
next
  case (2 n v)
  then show ?case by (simp add: split_char_no_sep)
next
  case (3 n v c cs)
  obtain n' v' where c: "c = (n', v')" by (cases c)
  from 3 have ih: "split_char (CHR '';'') (document_cookie (c # cs)) = cookie_pieces (c # cs)" by simp
  have "document_cookie ((n, v) # c # cs) = (n @ ''='' @ v) @ CHR '';'' # (CHR '' '' # document_cookie (c # cs))"
    by simp
  moreover have "CHR '';'' \<notin> set (n @ ''='' @ v)" using 3(2) by simp
  ultimately have "split_char (CHR '';'') (document_cookie ((n, v) # c # cs))
      = (n @ ''='' @ v) # split_char (CHR '';'') (CHR '' '' # document_cookie (c # cs))"
    using split_char_append[of "CHR '';''" "n @ ''='' @ v" "CHR '' '' # document_cookie (c # cs)"]
    by simp
  also have "split_char (CHR '';'') (CHR '' '' # document_cookie (c # cs))
      = (CHR '' '' # hd (cookie_pieces (c # cs))) # tl (cookie_pieces (c # cs))"
    using ih by (simp add: c)
  finally show ?case by (simp add: c)
qed

lemma takeWhile_neq: "c \<notin> set n \<Longrightarrow> takeWhile (\<lambda>x. x \<noteq> c) (n @ c # v) = n"
  by (induction n) auto

lemma prefix_name_eq:
  assumes "CHR ''='' \<notin> set name" "CHR ''='' \<notin> set n"
  shows "prefix (name @ ''='') (n @ CHR ''='' # v) \<longleftrightarrow> name = n"
proof
  assume "prefix (name @ ''='') (n @ CHR ''='' # v)"
  then obtain z where z: "n @ CHR ''='' # v = name @ CHR ''='' # z" by (auto simp add: prefix_def)
  from arg_cong[OF z, of "takeWhile (\<lambda>x. x \<noteq> CHR ''='')"]
  show "name = n" using assms by (simp add: takeWhile_neq)
next
  assume "name = n"
  then show "prefix (name @ ''='') (n @ CHR ''='' # v)" by simp
qed

lemma is_js_space_space: "is_js_space (CHR '' '')"
  by (simp add: is_js_space_def)

lemma getCookie_loop_piece:
  assumes "CHR ''='' \<notin> set name" "cookie_name_ok n" "set sp \<subseteq> {CHR '' ''}"
  shows "getCookie_loop (name @ ''='') ((sp @ n @ CHR ''='' # v) # rest)
       = (if n = name then Some v else getCookie_loop (name @ ''='') rest)"
proof -
  from assms(2) have n: "n \<noteq> []" "hd n \<noteq> CHR '' ''" "CHR ''='' \<notin> set n"
    using is_js_space_space by (auto simp add: cookie_name_ok_def)
  then have "dropWhile (\<lambda>x. x = CHR '' '') (n @ CHR ''='' # v) = n @ CHR ''='' # v"
    by (cases n) auto
  with assms(3) have d: "dropWhile (\<lambda>x. x = CHR '' '') (sp @ n @ CHR ''='' # v) = n @ CHR ''='' # v"
    by (induction sp) auto
  show ?thesis
    using prefix_name_eq[OF assms(1) n(3), of v]
    by (auto simp add: d Let_def)
qed

lemma getCookie_loop_pieces:
  assumes "CHR ''='' \<notin> set name" "list_all (\<lambda>(n, v). cookie_name_ok n) cs" "set sp \<subseteq> {CHR '' ''}"
  shows "getCookie_loop (name @ ''='') (map (\<lambda>(n, v). sp @ n @ CHR ''='' # v) cs) = map_of cs name"
  using assms(2)
proof (induction cs)
  case Nil
  then show ?case by simp
next
  case (Cons c cs)
  obtain n v where c: "c = (n, v)" by (cases c)
  from Cons show ?case
    using getCookie_loop_piece[OF assms(1) _ assms(3), of n v]
    by (auto simp add: c simp del: getCookie_loop.simps)
qed

lemma wf_jar_names: "wf_jar jar \<Longrightarrow> list_all (\<lambda>(n, v). cookie_name_ok n) jar"
  by (auto simp add: wf_jar_def list_all_iff)

lemma wf_jar_no_semicolon: "wf_jar jar \<Longrightarrow> list_all (\<lambda>(n, v). CHR '';'' \<notin> set n \<and> CHR '';'' \<notin> set v) jar"
  by (auto simp add: wf_jar_def list_all_iff cookie_name_ok_def cookie_value_ok_def)

lemma getCookie_map_of:
  assumes "wf_jar jar" "CHR ''='' \<notin> set name"
  shows "getCookie name jar = map_of jar name"
proof (cases jar)
  case Nil
  then show ?thesis by (simp add: getCookie_def)
next
  case (Cons c cs)
  obtain n v where c: "c = (n, v)" by (cases c)
  from assms(1) have names: "cookie_name_ok n" "list_all (\<lambda>(n, v). cookie_name_ok n) cs"
    using wf_jar_names[OF assms(1)] by (simp_all add: Cons c)
  have "getCookie name jar = getCookie_loop (name @ ''='') (cookie_pieces jar)"
    by (simp add: getCookie_def split_document_cookie[OF wf_jar_no_semicolon[OF assms(1)]])
  also have "\<dots> = getCookie_loop (name @ ''='') (([] @ n @ CHR ''='' # v) # map (\<lambda>(n, v). '' '' @ n @ CHR ''='' # v) cs)"
    by (simp add: Cons c)
  also have "\<dots> = (if n = name then Some v else getCookie_loop (name @ ''='') (map (\<lambda>(n, v). '' '' @ n @ CHR ''='' # v) cs))"
    by (rule getCookie_loop_piece[OF assms(2) names(1)]) simp
  also have "getCookie_loop (name @ ''='') (map (\<lambda>(n, v). '' '' @ n @ CHR ''='' # v) cs) = map_of cs name"
    by (rule getCookie_loop_pieces[OF assms(2) names(2)]) simp
  finally show ?thesis by (auto simp add: Cons c)
qed

lemma map_of_cookie_store: "map_of (cookie_store n v jar) = (map_of jar)(n \<mapsto> v)"
  by (induction jar) (auto simp add: fun_eq_iff)

lemma map_of_cookie_remove: "map_of (cookie_remove n jar) = (map_of jar)(n := None)"
  by (induction jar) (auto simp add: fun_eq_iff cookie_remove_def)

lemma set_cookie_store: "set (cookie_store n v jar) \<subseteq> insert (n, v) (set jar)"
  by (induction jar) (auto split: if_splits)

lemma fst_cookie_store: "map fst (cookie_store n v jar) = (if n \<in> fst ` set jar then map fst jar else map fst jar @ [n])"
  by (induction jar) (force+)

lemma wf_jar_cookie_store:
  assumes "wf_jar jar" "cookie_name_ok n" "cookie_value_ok v"
  shows "wf_jar (cookie_store n v jar)"
  using assms set_cookie_store[of n v jar]
  by (auto simp add: wf_jar_def list_all_iff fst_cookie_store)

lemma wf_jar_cookie_remove: "wf_jar jar \<Longrightarrow> wf_jar (cookie_remove n jar)"
  by (auto simp add: wf_jar_def list_all_iff cookie_remove_def distinct_map_filter)

lemma getCookie_setCookie:
  assumes "wf_jar jar" "cookie_name_ok n" "cookie_value_ok v" "0 < days" "CHR ''='' \<notin> set name"
  shows "getCookie name (setCookie n v days jar) = (if name = n then Some v else getCookie name jar)"
  using assms
  by (simp add: getCookie_map_of wf_jar_cookie_store setCookie_def map_of_cookie_store)

lemma getCookie_deleteCookie:
  assumes "wf_jar jar" "CHR ''='' \<notin> set name"
  shows "getCookie name (deleteCookie n jar) = (if name = n then None else getCookie name jar)"
  using assms
  by (simp add: getCookie_map_of wf_jar_cookie_remove deleteCookie_def map_of_cookie_remove)

lemma wf_jar_setCookie:
  "wf_jar jar \<Longrightarrow> cookie_name_ok n \<Longrightarrow> cookie_value_ok v \<Longrightarrow> wf_jar (setCookie n v days jar)"
  by (simp add: setCookie_def wf_jar_cookie_store wf_jar_cookie_remove)

lemma wf_jar_deleteCookie: "wf_jar jar \<Longrightarrow> wf_jar (deleteCookie n jar)"
  by (simp add: deleteCookie_def wf_jar_cookie_remove)

lemma String_nat_digits: "list_all is_digit (String_nat n)"
proof (induction n rule: String_nat.induct)
  case (1 n)
  show ?case
  proof (cases "n < 10")
    case True
    then show ?thesis by (simp add: String_nat_lt10 is_digit_digit_char)
  next
    case False
    with 1 show ?thesis by (simp add: String_nat_ge10 is_digit_digit_char)
  qed
qed

lemma String_nat_nonempty: "String_nat n \<noteq> []"
  by (subst String_nat.simps) simp

lemma is_digit_plain: "is_digit c \<Longrightarrow> c \<noteq> CHR '';'' \<and> c \<noteq> CHR ''='' \<and> \<not> is_js_space c"
  by (auto simp add: is_digit_def is_js_space_def)

lemma String_nat_plain: "CHR '';'' \<notin> set (String_nat n)" "CHR ''='' \<notin> set (String_nat n)"
  "\<not> is_js_space (last (String_nat n))" "\<not> is_js_space (hd (String_nat n))"
  using String_nat_digits[of n] String_nat_nonempty[of n] is_digit_plain
  by (auto simp add: list_all_iff)

lemma radix_digit_10: "is_digit c \<Longrightarrow> radix_digit 10 c = Some (digit_val c)"
  by (auto simp add: radix_digit_def is_digit_def digit_val_def Let_def)

lemma foldl_digits_String_nat:
  "foldl (\<lambda>a c. a * 10 + (case radix_digit 10 c of None \<Rightarrow> 0 | Some d \<Rightarrow> d)) 0 (String_nat n) = n"
proof (induction n rule: String_nat.induct)
  case (1 n)
  show ?case
  proof (cases "n < 10")
    case True
    then show ?thesis
      by (simp add: String_nat_lt10 radix_digit_10 is_digit_digit_char digit_val_digit_char)
  next
    case False
    with 1 show ?thesis
      by (simp add: String_nat_ge10 radix_digit_10 is_digit_digit_char digit_val_digit_char)
  qed
qed

lemma String_nat_inj: "String_nat m = String_nat n \<Longrightarrow> m = n"
  by (metis foldl_digits_String_nat)

lemma String_nat_hd: "String_nat n = c # cs \<Longrightarrow> is_digit c \<and> list_all is_digit cs \<and> (c = CHR ''0'' \<longrightarrow> cs = [])"
proof (induction n arbitrary: c cs rule: String_nat.induct)
  case (1 n)
  show ?case
  proof (cases "n < 10")
    case True
    with 1(2) show ?thesis by (auto simp add: String_nat_lt10 is_digit_digit_char)
  next
    case False
    then have s: "String_nat n = String_nat (n div 10) @ [digit_char (n mod 10)]" by (simp add: String_nat_ge10)
    obtain c' cs' where h: "String_nat (n div 10) = c' # cs'"
      using String_nat_nonempty[of "n div 10"] by (cases "String_nat (n div 10)") auto
    from 1(1)[OF False h] have ih: "is_digit c'" "list_all is_digit cs'" "c' = CHR ''0'' \<longrightarrow> cs' = []" by simp_all
    from s h 1(2) have c: "c = c'" "cs = cs' @ [digit_char (n mod 10)]" by simp_all
    have nz: "c' \<noteq> CHR ''0''"
    proof
      assume z: "c' = CHR ''0''"
      with ih(3) h have "String_nat (n div 10) = String_nat 0" by (simp add: String_nat_lt10 digit_char_0)
      then have "n div 10 = 0" by (rule String_nat_inj)
      with False show False by simp
    qed
    show ?thesis using ih nz c by (simp add: is_digit_digit_char)
  qed
qed

lemma parseInt_String_nat: "parseInt (String_nat n) = Some (int n)"
proof -
  obtain c cs where s: "String_nat n = c # cs"
    using String_nat_nonempty[of n] by (cases "String_nat n") auto
  from String_nat_hd[OF s] have h: "is_digit c" "list_all is_digit cs" "c = CHR ''0'' \<longrightarrow> cs = []" by simp_all
  from h(1) have c: "\<not> is_js_space c" "c \<noteq> CHR ''-''" "c \<noteq> CHR ''+''"
    by (auto simp add: is_digit_def is_js_space_def)
  have e1: "dropWhile is_js_space (c # cs) = c # cs" using c(1) by simp
  have e2: "(take 1 (c # cs) = ''-'') = False" "(take 1 (c # cs) = ''+'') = False"
    using c(2,3) by simp_all
  have e3: "(take 2 (c # cs) = ''0x'') = False" "(take 2 (c # cs) = ''0X'') = False"
    using h by (cases cs; auto simp add: is_digit_def)+
  have tw: "takeWhile (\<lambda>c. radix_digit 10 c \<noteq> None) (c # cs) = c # cs"
    using h(1,2) by (auto simp add: radix_digit_10 list_all_iff)
  have "parseInt (c # cs) = Some (int (foldl (\<lambda>a c. a * 10 + (case radix_digit 10 c of None \<Rightarrow> 0 | Some d \<Rightarrow> d)) 0 (c # cs)))"
    by (simp only: parseInt_def Let_def e1 e2 e3 simp_thms if_False tw list.distinct)
  then show ?thesis using foldl_digits_String_nat[of n] by (simp only: s)
qed

lemma getAvatarChunks_loop_missing:
  assumes "getCookie (chunk_key u j) jar = None"
  shows "i \<le> j \<Longrightarrow> j < i + k \<Longrightarrow> getAvatarChunks_loop k i u jar acc = None"
proof (induction k arbitrary: i acc)
  case 0
  then show ?case by simp
next
  case (Suc k)
  show ?case
  proof (cases "i = j")
    case True
    then show ?thesis using assms by simp
  next
    case False
    with Suc.prems have "Suc i \<le> j" "j < Suc i + k" by simp_all
    from Suc.IH[OF this] show ?thesis by (simp add: Let_def)
  qed
qed

text \<open>
  Claim C5. When the base avatar entry of a user is the chunk marker and a chunk entry
  with an index below the stored chunk count is absent, \<open>getUserAvatar\<close> returns null:
  no partial concatenation of the chunks that are present is returned.
\<close>

theorem fail_closed_chunk_read:
  assumes "getCookie (avatar_key u) jar = Some ''chunked''"
    and "stored_chunkCount u jar = Some chunkCount"
    and "int i < chunkCount"
    and "getCookie (chunk_key u i) jar = None"
  shows "getUserAvatar u jar = None"
proof -
  from assms(3) have "chunkCount \<noteq> 0" "i < 0 + nat chunkCount" by simp_all
  with getAvatarChunks_loop_missing[OF assms(4), of 0 "nat chunkCount" "[]"]
  have "getAvatarChunks u jar = None"
    by (simp add: getAvatarChunks_def assms(2))
  then show ?thesis by (simp add: getUserAvatar_def assms(1))
qed

lemmas name_eval = cookie_name_ok_def cookie_value_ok_def is_js_space_def wf_jar_def

lemmas digit_eval = String_nat_lt10 digit_char_def char_of_eq_iff char_eq_char_of


lemma username_ok_keys_no_eq:
  assumes "username_ok u"
  shows "CHR ''='' \<notin> set (token_key u)" "CHR ''='' \<notin> set (data_key u)" "CHR ''='' \<notin> set (avatar_key u)"
    "CHR ''='' \<notin> set (count_key u)" "CHR ''='' \<notin> set (chunk_key u i)"
  using assms String_nat_plain(2)[of i]
  by (simp_all add: username_ok_def token_key_def data_key_def avatar_key_def count_key_def chunk_key_def)

lemma username_ok_keys_ok:
  assumes "username_ok u"
  shows "cookie_name_ok (token_key u)" "cookie_name_ok (data_key u)" "cookie_name_ok (avatar_key u)"
    "cookie_name_ok (count_key u)" "cookie_name_ok (chunk_key u i)"
proof -
  have sp: "\<not> is_js_space (CHR ''u'')" "\<not> is_js_space (CHR ''_'')" "\<not> is_js_space (CHR ''s'')"
    by (simp_all add: is_js_space_def)
  from assms have u: "CHR '';'' \<notin> set u" "CHR ''='' \<notin> set u" "u = [] \<or> \<not> is_js_space (last u)"
    by (simp_all add: username_ok_def)
  show "cookie_name_ok (token_key u)" "cookie_name_ok (data_key u)" "cookie_name_ok (avatar_key u)"
    using u sp by (auto simp add: cookie_name_ok_def token_key_def data_key_def avatar_key_def)
  show "cookie_name_ok (count_key u)"
    using u sp by (simp add: cookie_name_ok_def count_key_def)
  show "cookie_name_ok (chunk_key u i)"
    using u sp String_nat_plain[of i] String_nat_nonempty[of i]
    by (simp add: cookie_name_ok_def chunk_key_def)
qed

lemma chunk_key_inj: "chunk_key u i = chunk_key u j \<longleftrightarrow> i = j"
  using String_nat_inj[of i j] by (auto simp add: chunk_key_def)

lemma keys_distinct:
  "avatar_key u \<noteq> count_key u" "avatar_key u \<noteq> chunk_key u i" "count_key u \<noteq> chunk_key u i"
  "count_key u \<noteq> avatar_key u" "chunk_key u i \<noteq> avatar_key u" "chunk_key u i \<noteq> count_key u"
  by (auto simp add: avatar_key_def count_key_def chunk_key_def)

lemma avatar_ok_value: "avatar_ok v \<Longrightarrow> cookie_value_ok v"
  by (cases v) (auto simp add: avatar_ok_def cookie_value_ok_def list_all_iff)

lemma avatar_ok_take_drop: "avatar_ok v \<Longrightarrow> avatar_ok (take n (drop i v))"
  by (auto simp add: avatar_ok_def list_all_iff dest: in_set_takeD in_set_dropD)

lemma slice_loop_concat: "concat (slice_loop v i) = drop i v"
proof (induction v i rule: slice_loop.induct)
  case (1 v i)
  show ?case
  proof (cases "i < length v")
    case True
    have "take chunkSize (drop i v) @ drop (i + chunkSize) v = drop i v"
      by (metis add.commute append_take_drop_id drop_drop)
    with 1[OF True] True show ?thesis by (subst slice_loop.simps) simp
  next
    case False
    then show ?thesis by (subst slice_loop.simps) simp
  qed
qed

lemma slice_loop_chunks:
  "avatar_ok v \<Longrightarrow> c \<in> set (slice_loop v i) \<Longrightarrow> c \<noteq> [] \<and> avatar_ok c"
proof (induction v i rule: slice_loop.induct)
  case (1 v i)
  show ?case
  proof (cases "i < length v")
    case True
    with 1(3) have "c = take chunkSize (drop i v) \<or> c \<in> set (slice_loop v (i + chunkSize))"
      by (subst (asm) slice_loop.simps) simp
    then show ?thesis
    proof
      assume c: "c = take chunkSize (drop i v)"
      with True have "c \<noteq> []" by (simp add: chunkSize_def)
      with c 1(2) show ?thesis by (simp add: avatar_ok_take_drop)
    next
      assume "c \<in> set (slice_loop v (i + chunkSize))"
      with 1(1)[OF True 1(2)] show ?thesis by simp
    qed
  next
    case False
    with 1(3) show ?thesis by (subst (asm) slice_loop.simps) simp
  qed
qed

lemma slice_loop_nonempty: "i < length v \<Longrightarrow> slice_loop v i \<noteq> []"
  by (subst slice_loop.simps) simp

lemma store_chunks_wf:
  assumes "username_ok u"
  shows "wf_jar jar \<Longrightarrow> list_all cookie_value_ok chunks \<Longrightarrow> wf_jar (store_chunks u days chunks idx jar)"
proof (induction chunks arbitrary: idx jar)
  case Nil
  then show ?case by simp
next
  case (Cons c chunks)
  then show ?case
    by (simp add: wf_jar_setCookie username_ok_keys_ok[OF assms])
qed

lemma store_chunks_other:
  assumes "username_ok u" "0 < days" "CHR ''='' \<notin> set name" "\<And>j. name \<noteq> chunk_key u j"
  shows "wf_jar jar \<Longrightarrow> list_all cookie_value_ok chunks
     \<Longrightarrow> getCookie name (store_chunks u days chunks idx jar) = getCookie name jar"
proof (induction chunks arbitrary: idx jar)
  case Nil
  then show ?case by simp
next
  case (Cons c chunks)
  then show ?case
    using assms(4)[of idx]
    by (simp add: wf_jar_setCookie username_ok_keys_ok[OF assms(1)] getCookie_setCookie assms(2,3))
qed

lemma store_chunks_below:
  assumes "username_ok u" "0 < days"
  shows "wf_jar jar \<Longrightarrow> list_all cookie_value_ok chunks \<Longrightarrow> j < idx
     \<Longrightarrow> getCookie (chunk_key u j) (store_chunks u days chunks idx jar) = getCookie (chunk_key u j) jar"
proof (induction chunks arbitrary: idx jar)
  case Nil
  then show ?case by simp
next
  case (Cons c chunks)
  then show ?case
    by (simp add: wf_jar_setCookie username_ok_keys_ok[OF assms(1)] getCookie_setCookie assms(2)
        username_ok_keys_no_eq[OF assms(1)] chunk_key_inj)
qed

lemma store_chunks_get:
  assumes "username_ok u" "0 < days"
  shows "wf_jar jar \<Longrightarrow> list_all cookie_value_ok chunks \<Longrightarrow> k < length chunks
     \<Longrightarrow> getCookie (chunk_key u (idx + k)) (store_chunks u days chunks idx jar) = Some (chunks ! k)"
proof (induction chunks arbitrary: idx jar k)
  case Nil
  then show ?case by simp
next
  case (Cons c chunks)
  let ?jar = "setCookie (chunk_key u idx) c days jar"
  from Cons.prems have wf: "wf_jar ?jar" and cs: "list_all cookie_value_ok chunks" and c: "cookie_value_ok c"
    by (simp_all add: wf_jar_setCookie username_ok_keys_ok[OF assms(1)])
  show ?case
  proof (cases k)
    case 0
    have "getCookie (chunk_key u idx) (store_chunks u days chunks (Suc idx) ?jar) = getCookie (chunk_key u idx) ?jar"
      by (rule store_chunks_below[OF assms wf cs]) simp
    also have "\<dots> = Some c"
      using Cons.prems(1) c
      by (simp add: getCookie_setCookie username_ok_keys_ok[OF assms(1)] assms(2) username_ok_keys_no_eq[OF assms(1)])
    finally show ?thesis by (simp add: 0)
  next
    case (Suc k')
    with Cons.prems have "k' < length chunks" by simp
    from Cons.IH[OF wf cs this, of "Suc idx"] show ?thesis by (simp add: Suc)
  qed
qed

lemma getAvatarChunks_loop_all:
  "length cs = n \<Longrightarrow> (\<And>k. k < n \<Longrightarrow> getCookie (chunk_key u (i + k)) jar = Some (cs ! k) \<and> cs ! k \<noteq> [])
   \<Longrightarrow> getAvatarChunks_loop n i u jar acc = Some (acc @ concat cs)"
proof (induction cs arbitrary: n i acc)
  case Nil
  then show ?case by simp
next
  case (Cons c cs)
  then obtain n' where n: "n = Suc n'" "length cs = n'" by (cases n) auto
  from Cons.prems(2)[of 0] n have c: "getCookie (chunk_key u i) jar = Some c" "c \<noteq> []" by simp_all
  have "\<And>k. k < n' \<Longrightarrow> getCookie (chunk_key u (Suc i + k)) jar = Some (cs ! k) \<and> cs ! k \<noteq> []"
    using Cons.prems(2)[of "Suc k" for k] n by simp
  from Cons.IH[OF n(2) this, of "acc @ c"] show ?case
    by (simp add: n c Let_def)
qed

theorem fail_closed_chunk_read_witness:
  "getCookie (avatar_key ''bob'') [(''userAvatar_bob'', ''chunked''), (''userAvatar_bob_chunks'', ''3''),
      (''userAvatar_bob_chunk_0'', ''abc''), (''userAvatar_bob_chunk_2'', ''ghi'')] = Some ''chunked''
   \<and> stored_chunkCount ''bob'' [(''userAvatar_bob'', ''chunked''), (''userAvatar_bob_chunks'', ''3''),
      (''userAvatar_bob_chunk_0'', ''abc''), (''userAvatar_bob_chunk_2'', ''ghi'')] = Some 3
   \<and> int 1 < 3
   \<and> getCookie (chunk_key ''bob'' 1) [(''userAvatar_bob'', ''chunked''), (''userAvatar_bob_chunks'', ''3''),
      (''userAvatar_bob_chunk_0'', ''abc''), (''userAvatar_bob_chunk_2'', ''ghi'')] = None
   \<and> getUserAvatar ''bob'' [(''userAvatar_bob'', ''chunked''), (''userAvatar_bob_chunks'', ''3''),
      (''userAvatar_bob_chunk_0'', ''abc''), (''userAvatar_bob_chunk_2'', ''ghi'')] = None"
proof -
  let ?jar = "[(''userAvatar_bob'', ''chunked''), (''userAvatar_bob_chunks'', ''3''),
      (''userAvatar_bob_chunk_0'', ''abc''), (''userAvatar_bob_chunk_2'', ''ghi'')]"
  have wf: "wf_jar ?jar" by (simp add: name_eval)
  have a: "getCookie (avatar_key ''bob'') ?jar = Some ''chunked''"
    by (simp add: avatar_key_def getCookie_map_of[OF wf])
  have "''3'' = String_nat 3" by (simp add: digit_eval)
  then have "parseInt ''3'' = Some 3" using parseInt_String_nat[of 3] by simp
  then have b: "stored_chunkCount ''bob'' ?jar = Some 3"
    by (simp add: stored_chunkCount_def count_key_def getCookie_map_of[OF wf])
  have c: "getCookie (chunk_key ''bob'' 1) ?jar = None"
    by (simp add: chunk_key_def digit_eval getCookie_map_of[OF wf])
  have d: "int 1 < 3" by simp
  from fail_closed_chunk_read[OF a b d c] a b c d show ?thesis by blast
qed

lemma setUserAvatar_small:
  assumes "wf_jar jar" "username_ok u" "cookie_value_ok v" "0 < days" "length v \<le> 3500" "CHR ''='' \<notin> set name"
  shows "getCookie name (setUserAvatar u v days jar) = (if name = avatar_key u then Some v else getCookie name jar)"
  using assms by (simp add: setUserAvatar_def getCookie_setCookie username_ok_keys_ok)


lemma setAvatarChunks_round_trip:
  assumes "wf_jar jar" "username_ok u" "avatar_ok v" "0 < days" "v \<noteq> []"
  shows "getUserAvatar u (setAvatarChunks u v days jar) = Some v"
proof -
  define chunks where "chunks = slice_loop v 0"
  define jar1 where "jar1 = setCookie (avatar_key u) ''chunked'' days jar"
  define jar2 where "jar2 = setCookie (count_key u) (String_nat (length chunks)) days jar1"
  define jar3 where "jar3 = store_chunks u days chunks 0 jar2"
  note kok = username_ok_keys_ok[OF assms(2)]
  note keq = username_ok_keys_no_eq[OF assms(2)]
  have set: "setAvatarChunks u v days jar = jar3"
    by (simp add: setAvatarChunks_def Let_def chunks_def jar1_def jar2_def jar3_def)
  have ch: "list_all cookie_value_ok chunks" "\<And>c. c \<in> set chunks \<Longrightarrow> c \<noteq> []" "chunks \<noteq> []" "concat chunks = v"
    using slice_loop_chunks[OF assms(3), of _ 0] assms(5) slice_loop_nonempty[of 0 v] slice_loop_concat[of v 0]
    by (auto simp add: chunks_def list_all_iff avatar_ok_value)
  have v1: "cookie_value_ok ''chunked''" by (simp add: cookie_value_ok_def is_js_space_def)
  have v2: "cookie_value_ok (String_nat (length chunks))"
    using String_nat_plain[of "length chunks"] by (simp add: cookie_value_ok_def)
  have wf1: "wf_jar jar1" unfolding jar1_def by (intro wf_jar_setCookie assms(1) kok v1)
  have wf2: "wf_jar jar2" unfolding jar2_def by (intro wf_jar_setCookie wf1 kok v2)
  have marker: "getCookie (avatar_key u) jar3 = Some ''chunked''"
  proof -
    have "getCookie (avatar_key u) jar3 = getCookie (avatar_key u) jar2"
      unfolding jar3_def
      by (rule store_chunks_other[OF assms(2,4) keq(3) _ wf2 ch(1)]) (simp add: keys_distinct)
    also have "\<dots> = Some ''chunked''"
      by (simp add: jar2_def jar1_def getCookie_setCookie wf1[unfolded jar1_def] assms(1,4) kok v1 v2 keq keys_distinct)
    finally show ?thesis .
  qed
  have count: "getCookie (count_key u) jar3 = Some (String_nat (length chunks))"
  proof -
    have "getCookie (count_key u) jar3 = getCookie (count_key u) jar2"
      unfolding jar3_def
      by (rule store_chunks_other[OF assms(2,4) keq(4) _ wf2 ch(1)]) (simp add: keys_distinct)
    also have "\<dots> = Some (String_nat (length chunks))"
      by (simp add: jar2_def getCookie_setCookie wf1 assms(4) kok v2 keq)
    finally show ?thesis .
  qed
  have cc: "stored_chunkCount u jar3 = Some (int (length chunks))"
    by (simp add: stored_chunkCount_def count String_nat_nonempty parseInt_String_nat)
  have each: "\<And>k. k < length chunks \<Longrightarrow> getCookie (chunk_key u (0 + k)) jar3 = Some (chunks ! k) \<and> chunks ! k \<noteq> []"
    unfolding jar3_def using store_chunks_get[OF assms(2,4) wf2 ch(1), of _ 0] ch(2) by simp
  have "getAvatarChunks_loop (length chunks) 0 u jar3 [] = Some ([] @ concat chunks)"
    by (rule getAvatarChunks_loop_all[OF refl each])
  then have "getAvatarChunks u jar3 = Some v"
    using ch(3,4) by (simp add: getAvatarChunks_def cc)
  then show ?thesis by (simp add: set getUserAvatar_def marker)
qed




text \<open>
  Claim C10 as stated fails in a jar that \<open>setAvatarChunks\<close> itself produces, and in a
  jar that three calls of \<open>setUserAvatar\<close> for three usernames produce: a single chunk
  that reads \<open>chunked\<close> is reassembled and returned.
\<close>

theorem chunk_marker_counterexample:
  "setAvatarChunks ''u'' ''chunked'' 7 [] =
     [(''userAvatar_u'', ''chunked''), (''userAvatar_u_chunks'', ''1''), (''userAvatar_u_chunk_0'', ''chunked'')]
   \<and> getUserAvatar ''u''
     [(''userAvatar_u'', ''chunked''), (''userAvatar_u_chunks'', ''1''), (''userAvatar_u_chunk_0'', ''chunked'')]
     = Some ''chunked''
   \<and> setUserAvatar ''bob'' ''chunked'' 7
        (setUserAvatar ''bob_chunks'' ''1'' 7 (setUserAvatar ''bob_chunk_0'' ''chunked'' 7 []))
     = [(''userAvatar_bob_chunk_0'', ''chunked''), (''userAvatar_bob_chunks'', ''1''), (''userAvatar_bob'', ''chunked'')]
   \<and> getUserAvatar ''bob''
     [(''userAvatar_bob_chunk_0'', ''chunked''), (''userAvatar_bob_chunks'', ''1''), (''userAvatar_bob'', ''chunked'')]
     = Some ''chunked''"
proof -
  have wf: "wf_jar []" by (simp add: wf_jar_def)
  have u: "username_ok ''u''" by (simp add: username_ok_def is_js_space_def)
  have ok: "avatar_ok ''chunked''" by (simp add: avatar_ok_def is_js_space_def)
  have sl: "slice_loop ''chunked'' 0 = [''chunked'']"
    by (simp add: slice_loop.simps[of _ 0] slice_loop.simps[of _ 3000] chunkSize_def)
  have st: "setAvatarChunks ''u'' ''chunked'' 7 [] =
     [(''userAvatar_u'', ''chunked''), (''userAvatar_u_chunks'', ''1''), (''userAvatar_u_chunk_0'', ''chunked'')]"
    by (simp add: setAvatarChunks_def sl setCookie_def avatar_key_def count_key_def chunk_key_def digit_eval)
  have a: "getUserAvatar ''u''
     [(''userAvatar_u'', ''chunked''), (''userAvatar_u_chunks'', ''1''), (''userAvatar_u_chunk_0'', ''chunked'')]
     = Some ''chunked''"
    using setAvatarChunks_round_trip[OF wf u ok, of 7] st by simp
  let ?jar = "[(''userAvatar_bob_chunk_0'', ''chunked''), (''userAvatar_bob_chunks'', ''1''), (''userAvatar_bob'', ''chunked'')]"
  have s3: "setUserAvatar ''bob'' ''chunked'' 7
        (setUserAvatar ''bob_chunks'' ''1'' 7 (setUserAvatar ''bob_chunk_0'' ''chunked'' 7 [])) = ?jar"
    by (simp add: setUserAvatar_def setCookie_def avatar_key_def)
  have wfb: "wf_jar ?jar" by (simp add: name_eval)
  have "''1'' = String_nat 1" by (simp add: digit_eval)
  then have p: "parseInt ''1'' = Some 1" using parseInt_String_nat[of 1] by simp
  have c: "stored_chunkCount ''bob'' ?jar = Some 1"
    by (simp add: stored_chunkCount_def count_key_def getCookie_map_of[OF wfb] p)
  have k: "getCookie (chunk_key ''bob'' 0) ?jar = Some ''chunked''"
    by (simp add: chunk_key_def digit_eval getCookie_map_of[OF wfb])
  have b: "getUserAvatar ''bob'' ?jar = Some ''chunked''"
    by (simp add: getUserAvatar_def avatar_key_def getCookie_map_of[OF wfb] getAvatarChunks_def c k)
  from st a s3 b show ?thesis by (intro conjI)
qed

text \<open>
  Claim C10, amended. \<open>getUserAvatar\<close> never returns the base avatar entry when that
  entry is the marker \<open>chunked\<close>: it returns the literal \<open>chunked\<close> only when the chunk
  entries reassemble to it. \<open>setUserAvatar(u, "chunked")\<close> writes the value to the base
  entry, and with no count entry present the following \<open>getUserAvatar(u)\<close> returns null.
\<close>

theorem chunk_marker_collision:
  "(getUserAvatar u jar = Some ''chunked'' \<longrightarrow>
      getCookie (avatar_key u) jar = Some ''chunked'' \<and> getAvatarChunks u jar = Some ''chunked'')
   \<and> (wf_jar jar \<and> username_ok u \<and> 0 < days \<and> getCookie (count_key u) jar = None \<longrightarrow>
      getUserAvatar u (setUserAvatar u ''chunked'' days jar) = None)"
proof (rule conjI; rule impI)
  assume "getUserAvatar u jar = Some ''chunked''"
  then show "getCookie (avatar_key u) jar = Some ''chunked'' \<and> getAvatarChunks u jar = Some ''chunked''"
    by (auto simp add: getUserAvatar_def Let_def split: if_splits)
next
  assume h: "wf_jar jar \<and> username_ok u \<and> 0 < days \<and> getCookie (count_key u) jar = None"
  have v: "cookie_value_ok ''chunked''" by (simp add: cookie_value_ok_def is_js_space_def)
  have p: "parseInt ''0'' = Some 0"
    using parseInt_String_nat[of 0] by (simp add: String_nat_lt10 digit_char_0)
  from h have "getCookie (avatar_key u) (setUserAvatar u ''chunked'' days jar) = Some ''chunked''"
    and "getCookie (count_key u) (setUserAvatar u ''chunked'' days jar) = None"
    by (simp_all add: setUserAvatar_small v username_ok_keys_no_eq keys_distinct)
  then show "getUserAvatar u (setUserAvatar u ''chunked'' days jar) = None"
    by (simp add: getUserAvatar_def getAvatarChunks_def stored_chunkCount_def p)
qed

theorem chunk_marker_collision_witness:
  "wf_jar [] \<and> username_ok ''u'' \<and> (0::int) < 7 \<and> getCookie (count_key ''u'') [] = None
   \<and> getUserAvatar ''u'' (setUserAvatar ''u'' ''chunked'' 7 []) = None
   \<and> getUserAvatar ''u'' (setAvatarChunks ''u'' ''chunked'' 7 []) = Some ''chunked''
   \<and> getCookie (avatar_key ''u'') (setAvatarChunks ''u'' ''chunked'' 7 []) = Some ''chunked''
   \<and> getAvatarChunks ''u'' (setAvatarChunks ''u'' ''chunked'' 7 []) = Some ''chunked''"
proof -
  have wf: "wf_jar []" by (simp add: wf_jar_def)
  have u: "username_ok ''u''" by (simp add: username_ok_def is_js_space_def)
  have ok: "avatar_ok ''chunked''" by (simp add: avatar_ok_def is_js_space_def)
  have c: "getCookie (count_key ''u'') [] = None" by (simp add: getCookie_def)
  note r = setAvatarChunks_round_trip[OF wf u ok, of 7]
  from chunk_marker_collision[of "''u''" "[]" 7] chunk_marker_collision[of "''u''" "setAvatarChunks ''u'' ''chunked'' 7 []"]
    wf u c r
  show ?thesis by simp
qed

lemma fold_deleteCookie:
  "wf_jar jar \<Longrightarrow> wf_jar (fold deleteCookie names jar)
     \<and> (CHR ''='' \<notin> set name \<longrightarrow>
          getCookie name (fold deleteCookie names jar) = (if name \<in> set names then None else getCookie name jar))"
proof (induction names arbitrary: jar)
  case Nil
  then show ?case by simp
next
  case (Cons n names)
  from Cons.IH[OF wf_jar_deleteCookie[OF Cons.prems], of n] Cons.prems
  show ?case by (auto simp add: getCookie_deleteCookie)
qed

lemma deleteUserToken_fold: "deleteUserToken u jar = fold deleteCookie (deleted_keys u) jar"
  by (simp add: deleteUserToken_def deleteUserAvatar_def deleted_keys_def fold_map comp_def del: upt.simps)


lemma getCookie_deleteUserToken:
  "wf_jar jar \<Longrightarrow> CHR ''='' \<notin> set name
   \<Longrightarrow> getCookie name (deleteUserToken u jar) = (if name \<in> set (deleted_keys u) then None else getCookie name jar)"
  using fold_deleteCookie[of jar "deleted_keys u" name] by (simp add: deleteUserToken_fold)

lemma deleted_keys_shape:
  "name \<in> set (deleted_keys u) \<Longrightarrow>
     name = token_key u \<or> name = data_key u \<or> name = avatar_key u \<or> (\<exists>i<10. name = chunk_key u i)"
  by (auto simp add: deleted_keys_def simp del: upt.simps)

lemma deleted_keys_own:
  "token_key u \<in> set (deleted_keys u)" "data_key u \<in> set (deleted_keys u)" "avatar_key u \<in> set (deleted_keys u)"
  "i < 10 \<Longrightarrow> chunk_key u i \<in> set (deleted_keys u)"
  by (auto simp add: deleted_keys_def simp del: upt.simps)

lemma other_user_keys_kept:
  assumes "w \<noteq> u"
  shows "token_key w \<notin> set (deleted_keys u)" "data_key w \<notin> set (deleted_keys u)"
  using assms deleted_keys_shape[of "token_key w" u] deleted_keys_shape[of "data_key w" u]
  by (auto simp add: token_key_def data_key_def avatar_key_def chunk_key_def)

lemma global_keys_kept:
  "''activeUser'' \<notin> set (deleted_keys u)" "''lastUsers'' \<notin> set (deleted_keys u)"
  using deleted_keys_shape[of "''activeUser''" u] deleted_keys_shape[of "''lastUsers''" u]
  by (auto simp add: token_key_def data_key_def avatar_key_def chunk_key_def)

lemma own_leftovers_kept:
  "count_key u \<notin> set (deleted_keys u)" "10 \<le> i \<Longrightarrow> chunk_key u i \<notin> set (deleted_keys u)"
proof -
  show "count_key u \<notin> set (deleted_keys u)"
    using deleted_keys_shape[of "count_key u" u] keys_distinct[of u]
    by (auto simp add: count_key_def token_key_def data_key_def)
  show "10 \<le> i \<Longrightarrow> chunk_key u i \<notin> set (deleted_keys u)"
    using deleted_keys_shape[of "chunk_key u i" u] keys_distinct[of u] chunk_key_inj[of u i]
    by (auto simp add: chunk_key_def token_key_def data_key_def)
qed

text \<open>
  Claim C7, amended. On a well-formed jar and for a username that contains neither \<open>;\<close>
  nor \<open>=\<close> and does not end in white space, \<open>deleteUserToken(u)\<close> removes the token entry, the
  data entry, the base avatar entry and the chunk entries 0 to 9 of \<open>u\<close>, so that token,
  data and avatar of \<open>u\<close> read as null afterwards. It changes no entry under any other
  name: the token and data entries of every other username, the roster and the active
  pointer are as before (the active pointer still names \<open>u\<close> if it did), and so are the
  chunk count entry of \<open>u\<close> and its chunk entries from index 10 on.
\<close>

theorem deleteUserToken_effect:
  assumes "wf_jar jar" "username_ok u"
  shows "getUserToken u (deleteUserToken u jar) = None
     \<and> getCookie (data_key u) (deleteUserToken u jar) = None
     \<and> getCookie (avatar_key u) (deleteUserToken u jar) = None
     \<and> (\<forall>i<10. getCookie (chunk_key u i) (deleteUserToken u jar) = None)
     \<and> getUserAvatar u (deleteUserToken u jar) = None
     \<and> getUserData J u (deleteUserToken u jar) = JNull
     \<and> (\<forall>name. CHR ''='' \<notin> set name \<and> name \<notin> set (deleted_keys u) \<longrightarrow>
            getCookie name (deleteUserToken u jar) = getCookie name jar)
     \<and> (\<forall>w. username_ok w \<and> w \<noteq> u \<longrightarrow>
            getUserToken w (deleteUserToken u jar) = getUserToken w jar
          \<and> getCookie (data_key w) (deleteUserToken u jar) = getCookie (data_key w) jar)
     \<and> getCookie (count_key u) (deleteUserToken u jar) = getCookie (count_key u) jar
     \<and> (\<forall>i\<ge>10. getCookie (chunk_key u i) (deleteUserToken u jar) = getCookie (chunk_key u i) jar)
     \<and> getLastUsers J (deleteUserToken u jar) = getLastUsers J jar
     \<and> getActiveUser (deleteUserToken u jar) = getActiveUser jar"
proof -
  note g = getCookie_deleteUserToken[OF assms(1)]
  note keq = username_ok_keys_no_eq[OF assms(2)]
  have own: "getCookie (token_key u) (deleteUserToken u jar) = None"
    "getCookie (data_key u) (deleteUserToken u jar) = None"
    "getCookie (avatar_key u) (deleteUserToken u jar) = None"
    "\<And>i. i < 10 \<Longrightarrow> getCookie (chunk_key u i) (deleteUserToken u jar) = None"
    by (simp_all add: g keq deleted_keys_own)
  have frame: "\<And>name. CHR ''='' \<notin> set name \<Longrightarrow> name \<notin> set (deleted_keys u) \<Longrightarrow>
      getCookie name (deleteUserToken u jar) = getCookie name jar"
    by (simp add: g)
  have others: "\<And>w. username_ok w \<Longrightarrow> w \<noteq> u \<Longrightarrow>
      getUserToken w (deleteUserToken u jar) = getUserToken w jar
      \<and> getCookie (data_key w) (deleteUserToken u jar) = getCookie (data_key w) jar"
    by (simp add: getUserToken_def frame username_ok_keys_no_eq other_user_keys_kept)
  have left: "getCookie (count_key u) (deleteUserToken u jar) = getCookie (count_key u) jar"
    "\<And>i. 10 \<le> i \<Longrightarrow> getCookie (chunk_key u i) (deleteUserToken u jar) = getCookie (chunk_key u i) jar"
    by (simp_all add: frame keq own_leftovers_kept)
  have glob: "getCookie ''lastUsers'' (deleteUserToken u jar) = getCookie ''lastUsers'' jar"
    "getCookie ''activeUser'' (deleteUserToken u jar) = getCookie ''activeUser'' jar"
    by (simp_all add: frame global_keys_kept)
  have av: "getUserAvatar u (deleteUserToken u jar) = None"
    by (simp add: getUserAvatar_def own)
  have ud: "getUserData J u (deleteUserToken u jar) = JNull"
    by (simp add: getUserData_def own)
  show ?thesis
    using own frame others left glob av ud
    by (simp add: getUserToken_def getLastUsers_def getActiveUser_def)
qed

lemma fold_deleteCookie_absent:
  "(\<And>n. n \<in> set names \<Longrightarrow> n \<notin> fst ` set jar) \<Longrightarrow> fold deleteCookie names jar = jar"
proof (induction names)
  case Nil
  then show ?case by simp
next
  case (Cons n names)
  have "deleteCookie n jar = jar"
    using Cons.prems[of n] by (force simp add: deleteCookie_def cookie_remove_def filter_id_conv)
  with Cons show ?case by simp
qed

text \<open>
  Claim C7 as stated fails where \<open>u\<close> is the active username: the active pointer is
  not unset.
\<close>

theorem deleteUserToken_active_counterexample:
  "getActiveUser [(''userToken_bob'', ''t''), (''userData_bob'', ''d''), (''activeUser'', ''bob'')] = Some ''bob''
   \<and> deleteUserToken ''bob'' [(''userToken_bob'', ''t''), (''userData_bob'', ''d''), (''activeUser'', ''bob'')]
       = [(''activeUser'', ''bob'')]
   \<and> getActiveUser [(''activeUser'', ''bob'')] = Some ''bob''"
proof -
  have wf: "wf_jar [(''userToken_bob'', ''t''), (''userData_bob'', ''d''), (''activeUser'', ''bob'')]"
    "wf_jar [(''activeUser'', ''bob'')]"
    by (simp_all add: name_eval)
  have d: "deleteUserToken ''bob'' [(''userToken_bob'', ''t''), (''userData_bob'', ''d''), (''activeUser'', ''bob'')]
       = [(''activeUser'', ''bob'')]"
  proof -
    have "fold deleteCookie (map (chunk_key ''bob'') [0..<10]) [(''activeUser'', ''bob'')] = [(''activeUser'', ''bob'')]"
      by (rule fold_deleteCookie_absent) (auto simp add: chunk_key_def)
    then show ?thesis
      by (simp add: deleteUserToken_fold deleted_keys_def deleteCookie_def cookie_remove_def
          token_key_def data_key_def avatar_key_def del: upt.simps)
  qed
  show ?thesis
    by (simp add: d getActiveUser_def getCookie_map_of wf)
qed

theorem deleteUserToken_effect_witness:
  "wf_jar [(''userToken_bob'', ''t''), (''userData_bob'', ''d''), (''userToken_eve'', ''s''), (''activeUser'', ''bob'')]
   \<and> username_ok ''bob'' \<and> username_ok ''eve'' \<and> ''eve'' \<noteq> ''bob''
   \<and> CHR ''='' \<notin> set ''activeUser'' \<and> ''activeUser'' \<notin> set (deleted_keys ''bob'')
   \<and> getUserToken ''bob''
        (deleteUserToken ''bob'' [(''userToken_bob'', ''t''), (''userData_bob'', ''d''), (''userToken_eve'', ''s''), (''activeUser'', ''bob'')]) = None
   \<and> getUserToken ''eve''
        (deleteUserToken ''bob'' [(''userToken_bob'', ''t''), (''userData_bob'', ''d''), (''userToken_eve'', ''s''), (''activeUser'', ''bob'')]) = Some ''s''
   \<and> getActiveUser
        (deleteUserToken ''bob'' [(''userToken_bob'', ''t''), (''userData_bob'', ''d''), (''userToken_eve'', ''s''), (''activeUser'', ''bob'')]) = Some ''bob''"
proof -
  let ?jar = "[(''userToken_bob'', ''t''), (''userData_bob'', ''d''), (''userToken_eve'', ''s''), (''activeUser'', ''bob'')]"
  have wf: "wf_jar ?jar" by (simp add: name_eval)
  have u: "username_ok ''bob''" "username_ok ''eve''" by (simp_all add: username_ok_def is_js_space_def)
  have e: "getUserToken ''eve'' ?jar = Some ''s''" "getActiveUser ?jar = Some ''bob''"
    by (simp_all add: getUserToken_def getActiveUser_def token_key_def getCookie_map_of[OF wf])
  from deleteUserToken_effect[OF wf u(1), of undefined] wf u e global_keys_kept[of "''bob''"]
  show ?thesis by simp
qed


































end
